theory Spec2Isabelle
  imports Complex_Main
begin

section \<open>Dapis server: the multi-format search engine of dapis_server.py\<close>

text \<open>
  The server keeps a registry of sessions (a session identifier and the list of target
  paths submitted under it), answers regex queries by scanning every target with a
  handler chosen from the file extension, and appends every match to a per-session
  SQLite table.

  The regex engine, the file system, the spreadsheet and PDF libraries and the office
  converters are outside the repository. They are the fields of the record \<open>env\<close>;
  every function of the source that touches them takes the \<open>env\<close> as its first
  argument. A Python exception is a value of type \<open>exn\<close>, and a function that may
  raise returns \<open>exn + 'a\<close> with \<open>Inl\<close> for the raise.
\<close>

subsection \<open>Python strings and integers\<close>

text \<open>
  A Python \<open>str\<close> is modelled as a \<open>string\<close> of ASCII characters; \<open>str.lower\<close>
  maps \<open>A..Z\<close> to \<open>a..z\<close> and leaves every other character alone.
\<close>

definition lower_char :: "char \<Rightarrow> char" where
  "lower_char c =
     (case map_of (zip ''ABCDEFGHIJKLMNOPQRSTUVWXYZ'' ''abcdefghijklmnopqrstuvwxyz'') c of
        None \<Rightarrow> c
      | Some d \<Rightarrow> d)"

definition lower :: "string \<Rightarrow> string" where
  "lower s = map lower_char s"

text \<open>\<open>s.split(sep)\<close> for a one-character separator: never empty, \<open>[s]\<close> when
  \<open>sep\<close> does not occur.\<close>

fun split_str :: "char \<Rightarrow> string \<Rightarrow> string list" where
  "split_str sep [] = [[]]"
| "split_str sep (c # cs) =
     (if c = sep then [] # split_str sep cs
      else (case split_str sep cs of
              [] \<Rightarrow> [[c]]
            | w # ws \<Rightarrow> (c # w) # ws))"

text \<open>\<open>s.startswith(p)\<close> and the substring test \<open>sub in s\<close> of two strings.\<close>

fun startswith :: "string \<Rightarrow> string \<Rightarrow> bool" where
  "startswith s [] = True"
| "startswith [] (p # ps) = False"
| "startswith (c # cs) (p # ps) = (c = p \<and> startswith cs ps)"

fun str_in :: "string \<Rightarrow> string \<Rightarrow> bool" where
  "str_in sub [] = (sub = [])"
| "str_in sub (c # cs) = (startswith (c # cs) sub \<or> str_in sub cs)"

text \<open>\<open>s.rstrip("\n")\<close>: every trailing newline goes.\<close>

definition rstrip_nl :: "string \<Rightarrow> string" where
  "rstrip_nl s = rev (dropWhile (\<lambda>c. c = CHR 0x0A) (rev s))"

text \<open>\<open>str(n)\<close> of an integer: its decimal digits, with a minus sign below zero.\<close>

definition digit_char :: "nat \<Rightarrow> char" where
  "digit_char d = ''0123456789'' ! d"

function str_nat :: "nat \<Rightarrow> string" where
  "str_nat n = (if n < 10 then [digit_char n] else str_nat (n div 10) @ [digit_char (n mod 10)])"
  by pat_completeness auto
termination
  by (relation "measure id") auto

declare str_nat.simps [simp del]

definition str_int :: "int \<Rightarrow> string" where
  "str_int i = (if i < 0 then CHR ''-'' # str_nat (nat (- i)) else str_nat (nat i))"

text \<open>The slice \<open>xs[:k]\<close>: a negative \<open>k\<close> counts from the end.\<close>

definition slice_to :: "int \<Rightarrow> 'a list \<Rightarrow> 'a list" where
  "slice_to k xs = (if k < 0 then take (nat (int (length xs) + k)) xs else take (nat k) xs)"

subsection \<open>Exceptions, iterators and the outside world\<close>

datatype exn =
    Exn string
  | ZeroDivisionError
  | RuntimeError exn

text \<open>
  A Python iterator that is read once: it ends (\<open>Stop\<close>), raises (\<open>Raise\<close>) or
  yields an item and goes on. A file that reads to its end is \<open>of_list\<close> of its lines.
\<close>

datatype 'a iter =
    Stop
  | Raise exn
  | Yield 'a "'a iter"

fun of_list :: "'a list \<Rightarrow> 'a iter" where
  "of_list [] = Stop"
| "of_list (x # xs) = Yield x (of_list xs)"

text \<open>A workbook of openpyxl: the sheet names in declared order, and \<open>wb[name]\<close>
  with the rows that \<open>iter_rows(values_only=True)\<close> yields, each row a tuple of
  cell values, \<open>None\<close> for an empty cell.\<close>

record 'c workbook =
  sheetnames :: "string list"
  wb_getitem :: "string \<Rightarrow> exn + 'c option list iter"

text \<open>A word of \<open>page.get_text("words")\<close> and a page of PyMuPDF. Coordinates and
  page sizes are Python floats; they are modelled as exact rationals.\<close>

record pdf_word =
  x0 :: rat
  y0 :: rat
  x1 :: rat
  y1 :: rat
  word :: string
  block_no :: int
  line_no :: int
  word_no :: int

record pdf_page =
  get_text_words :: "exn + pdf_word list"
  rect_width :: rat
  rect_height :: rat

record 'c env =
  re_compile :: "string \<Rightarrow> int \<Rightarrow> exn + (string \<Rightarrow> bool)"
  open_text :: "string \<Rightarrow> exn + string iter"
  load_workbook :: "string \<Rightarrow> exn + 'c workbook"
  py_str :: "'c \<Rightarrow> string"
  fitz_open :: "string \<Rightarrow> exn + pdf_page iter"
  platform_system :: string
  splitext_root :: "string \<Rightarrow> string"
  dirname :: "string \<Rightarrow> string"
  word_com_save_as :: "string \<Rightarrow> string \<Rightarrow> exn + unit"
  powerpoint_com_save_as :: "string \<Rightarrow> string \<Rightarrow> exn + unit"
  run_libreoffice :: "string \<Rightarrow> string \<Rightarrow> exn + unit"

definition IGNORECASE :: int where
  "IGNORECASE = 2"

subsection \<open>Matches\<close>

text \<open>The dictionary a handler appends for one match. The keys \<open>x%\<close> and \<open>y%\<close>
  exist for PDF matches only.\<close>

record match =
  path :: string
  sheet :: "string option"
  line :: string
  column :: "string option"
  page :: "string option"
  val :: string
  x_pct :: "rat option"
  y_pct :: "rat option"

text \<open>\<open>round(x, 1)\<close>: to one decimal place, a tie to the even neighbour.\<close>

definition round_half_even :: "rat \<Rightarrow> int" where
  "round_half_even q =
     (let f = \<lfloor>q\<rfloor>; d = q - of_int f
      in if d < 1 / 2 then f else if 1 / 2 < d then f + 1 else if even f then f else f + 1)"

definition round1 :: "rat \<Rightarrow> rat" where
  "round1 q = of_int (round_half_even (q * 10)) / 10"

subsection \<open>The text handler\<close>

fun text_loop :: "string \<Rightarrow> (string \<Rightarrow> bool) \<Rightarrow> nat \<Rightarrow> string iter \<Rightarrow> match list \<Rightarrow> match list" where
  "text_loop fp rx i Stop out = out"
| "text_loop fp rx i (Raise e) out = out"
| "text_loop fp rx i (Yield l fh) out =
     text_loop fp rx (i + 1) fh
       (if rx l
        then out @ [\<lparr>path = fp, sheet = None, line = str_nat i, column = None, page = None,
                      val = rstrip_nl l, x_pct = None, y_pct = None\<rparr>]
        else out)"

definition search_text_file :: "'c env \<Rightarrow> string \<Rightarrow> string \<Rightarrow> int \<Rightarrow> exn + match list" where
  "search_text_file env fp pattern flags =
     (case re_compile env pattern flags of
        Inl e \<Rightarrow> Inl e
      | Inr rx \<Rightarrow>
          Inr (case open_text env fp of
                 Inl e \<Rightarrow> []
               | Inr fh \<Rightarrow> text_loop fp rx 1 fh []))"

subsection \<open>The spreadsheet handler\<close>

fun cells_loop ::
  "('c \<Rightarrow> string) \<Rightarrow> string \<Rightarrow> string \<Rightarrow> (string \<Rightarrow> bool) \<Rightarrow> nat \<Rightarrow> nat \<Rightarrow> 'c option list \<Rightarrow>
   match list \<Rightarrow> match list" where
  "cells_loop str fp sh rx i j [] out = out"
| "cells_loop str fp sh rx i j (cell # cells) out =
     cells_loop str fp sh rx i (j + 1) cells
       (let v = (case cell of None \<Rightarrow> [] | Some c \<Rightarrow> str c)
        in if rx v
           then out @ [\<lparr>path = fp, sheet = Some sh, line = str_nat i, column = Some (str_nat j),
                         page = None, val = v, x_pct = None, y_pct = None\<rparr>]
           else out)"

fun rows_loop ::
  "('c \<Rightarrow> string) \<Rightarrow> string \<Rightarrow> string \<Rightarrow> (string \<Rightarrow> bool) \<Rightarrow> nat \<Rightarrow> 'c option list iter \<Rightarrow>
   match list \<Rightarrow> match list \<times> exn option" where
  "rows_loop str fp sh rx i Stop out = (out, None)"
| "rows_loop str fp sh rx i (Raise e) out = (out, Some e)"
| "rows_loop str fp sh rx i (Yield row it) out =
     rows_loop str fp sh rx (i + 1) it (cells_loop str fp sh rx i 1 row out)"

fun sheets_loop ::
  "('c \<Rightarrow> string) \<Rightarrow> 'c workbook \<Rightarrow> string \<Rightarrow> (string \<Rightarrow> bool) \<Rightarrow> string list \<Rightarrow>
   match list \<Rightarrow> match list \<times> exn option" where
  "sheets_loop str wb fp rx [] out = (out, None)"
| "sheets_loop str wb fp rx (sh # shs) out =
     (case wb_getitem wb sh of
        Inl e \<Rightarrow> (out, Some e)
      | Inr ws \<Rightarrow>
          (case rows_loop str fp sh rx 1 ws out of
             (out', Some e) \<Rightarrow> (out', Some e)
           | (out', None) \<Rightarrow> sheets_loop str wb fp rx shs out'))"

definition search_excel_file :: "'c env \<Rightarrow> string \<Rightarrow> string \<Rightarrow> int \<Rightarrow> exn + match list" where
  "search_excel_file env fp pattern flags =
     (case re_compile env pattern flags of
        Inl e \<Rightarrow> Inl e
      | Inr rx \<Rightarrow>
          Inr (case load_workbook env fp of
                 Inl e \<Rightarrow> []
               | Inr wb \<Rightarrow> fst (sheets_loop (py_str env) wb fp rx (sheetnames wb) [])))"

subsection \<open>The converters\<close>

definition convert_word_to_pdf :: "'c env \<Rightarrow> string \<Rightarrow> string option \<Rightarrow> exn + string" where
  "convert_word_to_pdf env input_path output_path =
     (let out_path = (case output_path of
                        None \<Rightarrow> splitext_root env input_path @ ''.pdf''
                      | Some p \<Rightarrow> p)
      in if platform_system env = ''Windows''
         then (case word_com_save_as env input_path out_path of
                 Inl e \<Rightarrow> Inl e
               | Inr u \<Rightarrow> Inr out_path)
         else (case run_libreoffice env (dirname env out_path) input_path of
                 Inl e \<Rightarrow> Inl e
               | Inr u \<Rightarrow> Inr out_path))"

definition libreoffice_fallback :: "'c env \<Rightarrow> string \<Rightarrow> string \<Rightarrow> exn + string" where
  "libreoffice_fallback env input_path out_path =
     (case run_libreoffice env (dirname env out_path) input_path of
        Inl e \<Rightarrow> Inl (RuntimeError e)
      | Inr u \<Rightarrow> Inr out_path)"

definition convert_ppt_to_pdf :: "'c env \<Rightarrow> string \<Rightarrow> string option \<Rightarrow> exn + string" where
  "convert_ppt_to_pdf env input_path output_path =
     (let out_path = (case output_path of
                        None \<Rightarrow> splitext_root env input_path @ ''.pdf''
                      | Some p \<Rightarrow> p)
      in if platform_system env = ''Windows''
         then (case powerpoint_com_save_as env input_path out_path of
                 Inr u \<Rightarrow> Inr out_path
               | Inl e \<Rightarrow> libreoffice_fallback env input_path out_path)
         else libreoffice_fallback env input_path out_path)"

subsection \<open>The PDF handler\<close>

fun words_loop ::
  "(string \<Rightarrow> bool) \<Rightarrow> string \<Rightarrow> nat \<Rightarrow> pdf_page \<Rightarrow> pdf_word list \<Rightarrow> match list \<Rightarrow>
   match list \<times> exn option" where
  "words_loop rx fp_alias page_num pg [] out = (out, None)"
| "words_loop rx fp_alias page_num pg (w # ws) out =
     (if rx (word w)
      then (if rect_width pg = 0 then (out, Some ZeroDivisionError)
            else if rect_height pg = 0 then (out, Some ZeroDivisionError)
            else (let x_pc = (x0 w / rect_width pg) * 100;
                      y_pc = (y0 w / rect_height pg) * 100
                  in words_loop rx fp_alias page_num pg ws
                       (out @ [\<lparr>path = fp_alias, sheet = None, line = str_int (line_no w),
                                 column = None, page = Some (str_nat page_num), val = word w,
                                 x_pct = Some (round1 x_pc), y_pct = Some (round1 y_pc)\<rparr>])))
      else words_loop rx fp_alias page_num pg ws out)"

fun pages_loop ::
  "(string \<Rightarrow> bool) \<Rightarrow> string \<Rightarrow> nat \<Rightarrow> pdf_page iter \<Rightarrow> match list \<Rightarrow> match list \<times> exn option" where
  "pages_loop rx fp_alias page_num Stop out = (out, None)"
| "pages_loop rx fp_alias page_num (Raise e) out = (out, Some e)"
| "pages_loop rx fp_alias page_num (Yield pg doc) out =
     (case get_text_words pg of
        Inl e \<Rightarrow> (out, Some e)
      | Inr ws \<Rightarrow>
          (case words_loop rx fp_alias page_num pg ws out of
             (out', Some e) \<Rightarrow> (out', Some e)
           | (out', None) \<Rightarrow> pages_loop rx fp_alias (page_num + 1) doc out'))"

definition search_pdf_file ::
  "'c env \<Rightarrow> string \<Rightarrow> string \<Rightarrow> int \<Rightarrow> string option \<Rightarrow> exn + match list" where
  "search_pdf_file env fp pattern flags fp_alias =
     (case re_compile env pattern flags of
        Inl e \<Rightarrow> Inl e
      | Inr rx \<Rightarrow>
          Inr (let alias = (case fp_alias of None \<Rightarrow> fp | Some a \<Rightarrow> a)
               in case fitz_open env fp of
                    Inl e \<Rightarrow> []
                  | Inr doc \<Rightarrow> fst (pages_loop rx alias 1 doc [])))"

subsection \<open>Dispatch on the extension\<close>

text \<open>
  In the source the second and third tests are written \<open>ext in ("docx")\<close> and
  \<open>ext in ("pptx")\<close>: the parentheses hold a string, not a tuple, so they are
  substring tests, while the first and the last test are memberships of a tuple.
\<close>

definition search_file :: "'c env \<Rightarrow> string \<Rightarrow> string \<Rightarrow> int \<Rightarrow> exn + match list" where
  "search_file env fp pattern flags =
     (let ext = last (split_str CHR ''.'' (lower fp))
      in if ext \<in> set [''xlsx'', ''xlsm'', ''xls''] then search_excel_file env fp pattern flags
         else if str_in ext ''docx''
         then (case convert_word_to_pdf env fp None of
                 Inl e \<Rightarrow> Inl e
               | Inr pdf_fp \<Rightarrow> search_pdf_file env pdf_fp pattern flags (Some fp))
         else if str_in ext ''pptx''
         then (case convert_ppt_to_pdf env fp None of
                 Inl e \<Rightarrow> Inl e
               | Inr pdf_fp \<Rightarrow> search_pdf_file env pdf_fp pattern flags (Some fp))
         else if ext = ''pdf'' then search_pdf_file env fp pattern flags None
         else if ext \<in> set [''txt'', ''py'', ''md'', ''csv''] then search_text_file env fp pattern flags
         else Inr [])"

subsection \<open>Sessions\<close>

text \<open>
  The server's state: the dictionary \<open>SESSIONS\<close>, the SQLite files of the results
  directory (one table per file, keyed by the file's name) and the tasks handed to the
  process pool so far, as \<open>(fp, pattern, flags)\<close>.
\<close>

record db_row =
  row_id :: nat
  row_query :: string
  row_file_path :: string
  row_sheet :: "string option"
  row_line :: string
  row_column :: "string option"
  row_page :: "string option"
  row_value :: string

text \<open>A table with \<open>id INTEGER PRIMARY KEY AUTOINCREMENT\<close>: \<open>seq\<close> is the largest
  identifier handed out so far.\<close>

record db =
  seq :: nat
  rows :: "db_row list"

record state =
  SESSIONS :: "string \<rightharpoonup> string list"
  dbs :: "string \<rightharpoonup> db"
  submitted :: "(string \<times> string \<times> int) list"

datatype response =
    JSONResponse string nat
  | Paths "string list"
  | Matches "match list" string string

definition VERSION :: string where
  "VERSION = ''0.1.1''"

definition PROGRAM :: string where
  "PROGRAM = ''Dapis Server''"

definition submit_targets :: "string \<Rightarrow> string list \<Rightarrow> state \<Rightarrow> state" where
  "submit_targets session_id paths st = st\<lparr>SESSIONS := (SESSIONS st)(session_id \<mapsto> paths)\<rparr>"

text \<open>\<open>TARGETS_COUNT_DEFAULT\<close> is read from the configuration when the server starts;
  it is the first argument here.\<close>

definition get_targets :: "int \<Rightarrow> state \<Rightarrow> string \<Rightarrow> response" where
  "get_targets max_count st session_id =
     (case SESSIONS st session_id of
        None \<Rightarrow> JSONResponse ''unknown session_id'' 400
      | Some paths \<Rightarrow>
          (let displayed = slice_to max_count paths
           in Paths (if int (length paths) > max_count
                     then displayed @ [''...and '' @ str_int (int (length paths) - max_count) @ '' more'']
                     else displayed)))"

subsection \<open>The result store\<close>

text \<open>
  \<open>init_db\<close> opens the file \<open><session_id>.sqlite\<close> of the results directory and
  creates the table \<open>results\<close> unless it exists. A results directory or a file that
  cannot be written is not modelled.
\<close>

definition db_name :: "string \<Rightarrow> string" where
  "db_name session_id = session_id @ ''.sqlite''"

definition init_db :: "string \<Rightarrow> state \<Rightarrow> state" where
  "init_db session_id st =
     (case dbs st (db_name session_id) of
        None \<Rightarrow> st\<lparr>dbs := (dbs st)(db_name session_id \<mapsto> \<lparr>seq = 0, rows = []\<rparr>)\<rparr>
      | Some d \<Rightarrow> st)"

definition insert_row :: "string \<Rightarrow> match \<Rightarrow> db \<Rightarrow> db" where
  "insert_row q r d =
     \<lparr>seq = seq d + 1,
      rows = rows d @ [\<lparr>row_id = seq d + 1, row_query = q, row_file_path = path r,
                        row_sheet = sheet r, row_line = line r, row_column = column r,
                        row_page = page r, row_value = val r\<rparr>]\<rparr>"

text \<open>The connection is the name of the table's file. \<open>search\<close> saves through the
  connection that \<open>init_db\<close> has just returned, so the table is there.\<close>

definition save_result :: "string \<Rightarrow> string \<Rightarrow> match \<Rightarrow> state \<Rightarrow> state" where
  "save_result conn q r st =
     (case dbs st conn of
        None \<Rightarrow> st
      | Some d \<Rightarrow> st\<lparr>dbs := (dbs st)(conn \<mapsto> insert_row q r d)\<rparr>)"

subsection \<open>The process pool and the query\<close>

text \<open>
  \<open>executor.submit\<close> returns a future per task, in the order of the submissions. The
  workers finish in some order \<open>sched\<close> (indices into the task list); finishing a task
  stores its outcome in its future. \<open>f.result()\<close> returns the stored list, raises the
  stored exception, or never returns when the task never finishes (\<open>None\<close>).
\<close>

definition run_workers :: "nat list \<Rightarrow> 'a list \<Rightarrow> 'a option list" where
  "run_workers sched tasks =
     foldl (\<lambda>futures i. if i < length tasks then futures[i := Some (tasks ! i)] else futures)
       (replicate (length tasks) None) sched"

fun collect :: "(exn + match list) option list \<Rightarrow> match list \<Rightarrow> (exn + match list) option" where
  "collect [] results = Some (Inr results)"
| "collect (None # futures) results = None"
| "collect (Some (Inl e) # futures) results = Some (Inl e)"
| "collect (Some (Inr ms) # futures) results = collect futures (results @ ms)"

text \<open>The flags of a query: \<open>re.IGNORECASE if ignore_case else 0\<close>.\<close>

definition flags_of :: "bool \<Rightarrow> int" where
  "flags_of ignore_case = (if ignore_case then IGNORECASE else 0)"

record body =
  session_id :: string
  pattern :: string
  ignore_case :: bool

text \<open>
  The outcome of \<open>search\<close>: \<open>None\<close> when the request never returns, \<open>Some (Inl e)\<close>
  when the exception \<open>e\<close> leaves the function, \<open>Some (Inr r)\<close> when it returns \<open>r\<close>;
  and the state it leaves.
\<close>

definition search :: "'c env \<Rightarrow> nat list \<Rightarrow> body \<Rightarrow> state \<Rightarrow> (exn + response) option \<times> state" where
  "search env sched req st =
     (case SESSIONS st (session_id req) of
        None \<Rightarrow> (Some (Inr (JSONResponse ''unknown session_id'' 400)), st)
      | Some paths \<Rightarrow>
          (let st1 = init_db (session_id req) st;
               conn = db_name (session_id req);
               flags = flags_of (ignore_case req);
               st2 = st1\<lparr>submitted := submitted st1 @ map (\<lambda>fp. (fp, pattern req, flags)) paths\<rparr>;
               futures = run_workers sched (map (\<lambda>fp. search_file env fp (pattern req) flags) paths)
           in case collect futures [] of
                None \<Rightarrow> (None, st2)
              | Some (Inl e) \<Rightarrow> (Some (Inl e), st2)
              | Some (Inr results) \<Rightarrow>
                  (Some (Inr (Matches results VERSION PROGRAM)),
                   foldl (\<lambda>s r. save_result conn (pattern req) r s) st2 results)))"

subsection \<open>What a handler has read when it stops\<close>

text \<open>
  The items an iterator yields before it ends or raises, and the exception it ends
  with, if any.
\<close>

fun iter_items :: "'a iter \<Rightarrow> 'a list" where
  "iter_items Stop = []"
| "iter_items (Raise e) = []"
| "iter_items (Yield x it) = x # iter_items it"

fun iter_exn :: "'a iter \<Rightarrow> exn option" where
  "iter_exn Stop = None"
| "iter_exn (Raise e) = Some e"
| "iter_exn (Yield x it) = iter_exn it"

text \<open>The matches of a list of lines, numbered from 1.\<close>

definition text_matches :: "string \<Rightarrow> (string \<Rightarrow> bool) \<Rightarrow> string list \<Rightarrow> match list" where
  "text_matches fp rx ls =
     map (\<lambda>(i, l). \<lparr>path = fp, sheet = None, line = str_nat i, column = None, page = None,
                      val = rstrip_nl l, x_pct = None, y_pct = None\<rparr>)
       (filter (\<lambda>(i, l). rx l) (enumerate 1 ls))"

text \<open>The sheets of a workbook read before the first failure, each with the rows read
  from it; and their matches, sheet by sheet, row by row, cell by cell.\<close>

fun read_sheets :: "'c workbook \<Rightarrow> string list \<Rightarrow> (string \<times> 'c option list list) list" where
  "read_sheets wb [] = []"
| "read_sheets wb (sh # shs) =
     (case wb_getitem wb sh of
        Inl e \<Rightarrow> []
      | Inr ws \<Rightarrow>
          (sh, iter_items ws) # (case iter_exn ws of Some e \<Rightarrow> [] | None \<Rightarrow> read_sheets wb shs))"

definition cell_text :: "('c \<Rightarrow> string) \<Rightarrow> 'c option \<Rightarrow> string" where
  "cell_text str cell = (case cell of None \<Rightarrow> [] | Some c \<Rightarrow> str c)"

definition row_matches ::
  "('c \<Rightarrow> string) \<Rightarrow> string \<Rightarrow> string \<Rightarrow> (string \<Rightarrow> bool) \<Rightarrow> nat \<Rightarrow> 'c option list \<Rightarrow> match list" where
  "row_matches str fp sh rx i row =
     map (\<lambda>(j, cell). \<lparr>path = fp, sheet = Some sh, line = str_nat i, column = Some (str_nat j),
                         page = None, val = cell_text str cell, x_pct = None, y_pct = None\<rparr>)
       (filter (\<lambda>(j, cell). rx (cell_text str cell)) (enumerate 1 row))"

definition excel_matches ::
  "('c \<Rightarrow> string) \<Rightarrow> string \<Rightarrow> (string \<Rightarrow> bool) \<Rightarrow> (string \<times> 'c option list list) list \<Rightarrow> match list" where
  "excel_matches str fp rx sheets =
     concat (map (\<lambda>(sh, rws). concat (map (\<lambda>(i, row). row_matches str fp sh rx i row) (enumerate 1 rws)))
               sheets)"

text \<open>The pages of a document read before the first failure, each with its words. A
  page of width or height zero that holds a matching word is a failure: the division
  raises at that word, and the words before it do not match.\<close>

fun read_pages :: "(string \<Rightarrow> bool) \<Rightarrow> pdf_page iter \<Rightarrow> (pdf_page \<times> pdf_word list) list" where
  "read_pages rx Stop = []"
| "read_pages rx (Raise e) = []"
| "read_pages rx (Yield pg doc) =
     (case get_text_words pg of
        Inl e \<Rightarrow> []
      | Inr ws \<Rightarrow>
          (if (rect_width pg = 0 \<or> rect_height pg = 0) \<and> list_ex (\<lambda>w. rx (word w)) ws then []
           else (pg, ws) # read_pages rx doc))"

definition page_matches ::
  "(string \<Rightarrow> bool) \<Rightarrow> string \<Rightarrow> nat \<Rightarrow> pdf_page \<Rightarrow> pdf_word list \<Rightarrow> match list" where
  "page_matches rx fp_alias page_num pg ws =
     map (\<lambda>w. \<lparr>path = fp_alias, sheet = None, line = str_int (line_no w), column = None,
                page = Some (str_nat page_num), val = word w,
                x_pct = Some (round1 (100 * x0 w / rect_width pg)),
                y_pct = Some (round1 (100 * y0 w / rect_height pg))\<rparr>)
       (filter (\<lambda>w. rx (word w)) ws)"

definition pdf_matches ::
  "(string \<Rightarrow> bool) \<Rightarrow> string \<Rightarrow> (pdf_page \<times> pdf_word list) list \<Rightarrow> match list" where
  "pdf_matches rx fp_alias pages =
     concat (map (\<lambda>(n, pg, ws). page_matches rx fp_alias n pg ws) (enumerate 1 pages))"

text \<open>The rows a query appends to a table whose last identifier is \<open>n\<close>.\<close>

definition new_rows :: "string \<Rightarrow> nat \<Rightarrow> match list \<Rightarrow> db_row list" where
  "new_rows q n ms =
     map (\<lambda>(k, r). \<lparr>row_id = n + k, row_query = q, row_file_path = path r, row_sheet = sheet r,
                      row_line = line r, row_column = column r, row_page = page r,
                      row_value = val r\<rparr>)
       (enumerate 1 ms)"

subsection \<open>A small world to run the server in\<close>

text \<open>
  A concrete environment for the examples below. Its regex engine knows literal patterns
  only (a match is an occurrence of the pattern, compared in lower case under
  \<open>IGNORECASE\<close>) and rejects the pattern \<open>(\<close>. Its files: a text file of five
  lines, a text file whose second read fails, a workbook of two sheets, a workbook whose
  second sheet cannot be parsed, a PDF of two pages, and office documents of which
  \<open>broken.docx\<close>, \<open>broken.pptx\<close> and \<open>notes.doc\<close> cannot be converted.
\<close>

definition literal_search :: "string \<Rightarrow> int \<Rightarrow> string \<Rightarrow> bool" where
  "literal_search p flags s =
     (if flags = IGNORECASE then str_in (lower p) (lower s) else str_in p s)"

definition demo_compile :: "string \<Rightarrow> int \<Rightarrow> exn + (string \<Rightarrow> bool)" where
  "demo_compile p flags =
     (if p = ''('' then Inl (Exn ''re.error'') else Inr (literal_search p flags))"

definition demo_lines :: "string list" where
  "demo_lines = [''first\<newline>'', ''alpha one\<newline>'', ''x\<newline>'', ''y\<newline>'', ''Alpha two'']"

definition demo_open_text :: "string \<Rightarrow> exn + string iter" where
  "demo_open_text fp =
     (if fp = ''notes.txt'' then Inr (of_list demo_lines)
      else if fp = ''torn.txt'' then Inr (Yield ''alpha\<newline>'' (Raise (Exn ''OSError'')))
      else Inl (Exn ''FileNotFoundError''))"

definition demo_sheet1 :: "string option list list" where
  "demo_sheet1 = [[Some ''id'', Some ''name''], [None, None], [Some ''7'', Some ''alpha'']]"

definition demo_sheet2 :: "string option list list" where
  "demo_sheet2 = [[Some ''alpha'', None, Some ''alphabet'']]"

definition demo_book :: "string workbook" where
  "demo_book =
     \<lparr>sheetnames = [''Sheet1'', ''Sheet2''],
      wb_getitem = (\<lambda>n. if n = ''Sheet1'' then Inr (of_list demo_sheet1)
                         else if n = ''Sheet2'' then Inr (of_list demo_sheet2)
                         else Inl (Exn ''KeyError''))\<rparr>"

definition torn_book :: "string workbook" where
  "torn_book =
     \<lparr>sheetnames = [''Sheet1'', ''Sheet2''],
      wb_getitem = (\<lambda>n. if n = ''Sheet1'' then Inr (of_list demo_sheet1)
                         else if n = ''Sheet2'' then Inr (Raise (Exn ''ParseError''))
                         else Inl (Exn ''KeyError''))\<rparr>"

definition demo_load_workbook :: "string \<Rightarrow> exn + string workbook" where
  "demo_load_workbook fp =
     (if fp = ''book.xlsx'' then Inr demo_book
      else if fp = ''torn.xlsx'' then Inr torn_book
      else Inl (Exn ''InvalidFileException''))"

definition demo_words1 :: "pdf_word list" where
  "demo_words1 =
     [\<lparr>x0 = 0, y0 = 0, x1 = 30, y1 = 12, word = ''alpha'', block_no = 0, line_no = 0, word_no = 0\<rparr>,
      \<lparr>x0 = 40, y0 = 0, x1 = 60, y1 = 12, word = ''beta'', block_no = 0, line_no = 0, word_no = 1\<rparr>,
      \<lparr>x0 = 100, y0 = 25, x1 = 150, y1 = 37, word = ''alphabet'', block_no = 0, line_no = 1,
        word_no = 0\<rparr>]"

definition demo_words2 :: "pdf_word list" where
  "demo_words2 =
     [\<lparr>x0 = 1 / 3, y0 = 99, x1 = 30, y1 = 100, word = ''alpha'', block_no = 2, line_no = 4,
        word_no = 0\<rparr>]"

definition demo_pages :: "pdf_page list" where
  "demo_pages =
     [\<lparr>get_text_words = Inr demo_words1, rect_width = 200, rect_height = 100\<rparr>,
      \<lparr>get_text_words = Inr demo_words2, rect_width = 200, rect_height = 100\<rparr>]"

definition demo_fitz_open :: "string \<Rightarrow> exn + pdf_page iter" where
  "demo_fitz_open fp =
     (if fp = ''doc.pdf'' \<or> fp = ''memo.pdf'' \<or> fp = ''slides.pdf'' then Inr (of_list demo_pages)
      else Inl (Exn ''FileNotFoundError''))"

definition demo_splitext_root :: "string \<Rightarrow> string" where
  "demo_splitext_root p = rev (tl (dropWhile (\<lambda>c. c \<noteq> CHR ''.'') (rev p)))"

definition demo_run_libreoffice :: "string \<Rightarrow> string \<Rightarrow> exn + unit" where
  "demo_run_libreoffice outdir input_path =
     (if input_path \<in> set [''broken.docx'', ''broken.pptx'', ''notes.doc'']
      then Inl (Exn ''CalledProcessError'')
      else Inr ())"

definition demo_env :: "string env" where
  "demo_env =
     \<lparr>re_compile = demo_compile,
      open_text = demo_open_text,
      load_workbook = demo_load_workbook,
      py_str = (\<lambda>s. s),
      fitz_open = demo_fitz_open,
      platform_system = ''Linux'',
      splitext_root = demo_splitext_root,
      dirname = (\<lambda>p. []),
      word_com_save_as = (\<lambda>i out. Inl (Exn ''ImportError'')),
      powerpoint_com_save_as = (\<lambda>i out. Inl (Exn ''ImportError'')),
      run_libreoffice = demo_run_libreoffice\<rparr>"

definition demo_paths :: "string list" where
  "demo_paths = [''notes.txt'', ''book.xlsx'', ''README'', ''doc.pdf'']"

definition demo_state :: state where
  "demo_state =
     \<lparr>SESSIONS = [''s1'' \<mapsto> demo_paths], dbs = Map.empty, submitted = []\<rparr>"

definition demo_query :: body where
  "demo_query = \<lparr>session_id = ''s1'', pattern = ''alpha'', ignore_case = False\<rparr>"

text \<open>What the handlers find for the pattern \<open>alpha\<close> in the files of this world.\<close>

definition demo_text_hits :: "match list" where
  "demo_text_hits =
     [\<lparr>path = ''notes.txt'', sheet = None, line = ''2'', column = None, page = None,
        val = ''alpha one'', x_pct = None, y_pct = None\<rparr>]"

definition demo_book_hits :: "string \<Rightarrow> match list" where
  "demo_book_hits fp =
     [\<lparr>path = fp, sheet = Some ''Sheet1'', line = ''3'', column = Some ''2'', page = None,
        val = ''alpha'', x_pct = None, y_pct = None\<rparr>,
      \<lparr>path = fp, sheet = Some ''Sheet2'', line = ''1'', column = Some ''1'', page = None,
        val = ''alpha'', x_pct = None, y_pct = None\<rparr>,
      \<lparr>path = fp, sheet = Some ''Sheet2'', line = ''1'', column = Some ''3'', page = None,
        val = ''alphabet'', x_pct = None, y_pct = None\<rparr>]"

definition demo_pdf_hits :: "string \<Rightarrow> match list" where
  "demo_pdf_hits fp =
     [\<lparr>path = fp, sheet = None, line = ''0'', column = None, page = Some ''1'',
        val = ''alpha'', x_pct = Some 0, y_pct = Some 0\<rparr>,
      \<lparr>path = fp, sheet = None, line = ''1'', column = None, page = Some ''1'',
        val = ''alphabet'', x_pct = Some 50, y_pct = Some 25\<rparr>,
      \<lparr>path = fp, sheet = None, line = ''4'', column = None, page = Some ''2'',
        val = ''alpha'', x_pct = Some (1 / 5), y_pct = Some 99\<rparr>]"

text \<open>A query whose pattern the regex engine rejects.\<close>

definition bad_query :: body where
  "bad_query = \<lparr>session_id = ''s1'', pattern = ''('', ignore_case = False\<rparr>"

section \<open>Properties\<close>

subsection \<open>Strings and iterators\<close>

lemma split_str_nonempty: "split_str sep s \<noteq> []"
  by (induction s) (auto split: list.splits)

lemma iter_items_of_list [simp]: "iter_items (of_list xs) = xs"
  by (induction xs) auto

lemma iter_exn_of_list [simp]: "iter_exn (of_list xs) = None"
  by (induction xs) auto

subsection \<open>The loops of the handlers\<close>

text \<open>Each loop appends, to what it was given, the matches of the items it reads before
  it stops.\<close>

lemma text_loop_items:
  "text_loop fp rx i it out =
     out @ map (\<lambda>(i, l). \<lparr>path = fp, sheet = None, line = str_nat i, column = None, page = None,
                             val = rstrip_nl l, x_pct = None, y_pct = None\<rparr>)
             (filter (\<lambda>(i, l). rx l) (enumerate i (iter_items it)))"
  by (induction it arbitrary: i out) auto

lemma cells_loop_eq:
  "cells_loop str fp sh rx i j cells out =
     out @ map (\<lambda>(j, cell). \<lparr>path = fp, sheet = Some sh, line = str_nat i,
                                column = Some (str_nat j), page = None,
                                val = cell_text str cell, x_pct = None, y_pct = None\<rparr>)
             (filter (\<lambda>(j, cell). rx (cell_text str cell)) (enumerate j cells))"
  by (induction cells arbitrary: j out) (auto simp: cell_text_def Let_def)

lemma rows_loop_eq:
  "rows_loop str fp sh rx i it out =
     (out @ concat (map (\<lambda>(i, row). row_matches str fp sh rx i row) (enumerate i (iter_items it))),
      iter_exn it)"
  by (induction it arbitrary: i out) (auto simp: cells_loop_eq row_matches_def)

lemma sheets_loop_eq:
  "fst (sheets_loop str wb fp rx shs out) = out @ excel_matches str fp rx (read_sheets wb shs)"
  by (induction shs arbitrary: out)
     (auto simp: rows_loop_eq excel_matches_def split: sum.splits option.splits)

lemma words_loop_ok:
  "rect_width pg \<noteq> 0 \<and> rect_height pg \<noteq> 0 \<or> \<not> list_ex (\<lambda>w. rx (word w)) ws \<Longrightarrow>
   words_loop rx a n pg ws out = (out @ page_matches rx a n pg ws, None)"
  by (induction ws arbitrary: out) (auto simp: page_matches_def Let_def algebra_simps)

lemma words_loop_zero:
  "(rect_width pg = 0 \<or> rect_height pg = 0) \<and> list_ex (\<lambda>w. rx (word w)) ws \<Longrightarrow>
   words_loop rx a n pg ws out = (out, Some ZeroDivisionError)"
  by (induction ws arbitrary: out) (auto simp: Let_def)

lemma pages_loop_eq:
  "fst (pages_loop rx a n doc out) =
     out @ concat (map (\<lambda>(n, pg, ws). page_matches rx a n pg ws) (enumerate n (read_pages rx doc)))"
  by (induction doc arbitrary: n out)
     (auto simp: words_loop_ok words_loop_zero split: sum.splits)

subsection \<open>The process pool\<close>

text \<open>Whatever the order in which the workers finish, once every task has finished
  the futures hold the outcomes in the order of the submissions.\<close>

lemma run_workers_fold:
  "foldl (\<lambda>futures i. if i < length tasks then futures[i := Some (tasks ! i)] else futures)
     (map (\<lambda>i. if i \<in> S then Some (tasks ! i) else None) [0..<length tasks]) sched =
   map (\<lambda>i. if i \<in> S \<union> set sched then Some (tasks ! i) else None) [0..<length tasks]"
proof (induction sched arbitrary: S)
  case Nil
  then show ?case by simp
next
  case (Cons i sched)
  have step: "(if i < length tasks
        then (map (\<lambda>i. if i \<in> S then Some (tasks ! i) else None) [0..<length tasks])
               [i := Some (tasks ! i)]
        else map (\<lambda>i. if i \<in> S then Some (tasks ! i) else None) [0..<length tasks]) =
     map (\<lambda>k. if k \<in> insert i S then Some (tasks ! k) else None) [0..<length tasks]"
  proof (cases "i < length tasks")
    case True
    then show ?thesis by (intro nth_equalityI) (auto simp: nth_list_update)
  next
    case False
    then show ?thesis by (intro nth_equalityI) auto
  qed
  show ?case
    using Cons.IH [of "insert i S"] by (simp add: step)
qed

lemma run_workers_complete:
  assumes "{..<length tasks} \<subseteq> set sched"
  shows "run_workers sched tasks = map Some tasks"
proof -
  have "replicate (length tasks) None =
        map (\<lambda>i. if i \<in> {} then Some (tasks ! i) else None) [0..<length tasks]"
    by (rule nth_equalityI) auto
  then have "run_workers sched tasks =
        map (\<lambda>i. if i \<in> {} \<union> set sched then Some (tasks ! i) else None) [0..<length tasks]"
    unfolding run_workers_def using run_workers_fold [of tasks "{}" sched] by simp
  also have "\<dots> = map Some tasks"
    using assms by (intro nth_equalityI) auto
  finally show ?thesis .
qed

lemma collect_all_ok: "collect (map (Some \<circ> Inr) mss) acc = Some (Inr (acc @ concat mss))"
  by (induction mss arbitrary: acc) auto

lemma collect_some_raise:
  "Inl e \<in> set rs \<Longrightarrow> \<exists>e'. Inl e' \<in> set rs \<and> collect (map Some rs) acc = Some (Inl e')"
proof (induction rs arbitrary: acc)
  case Nil
  then show ?case by simp
next
  case (Cons r rs)
  show ?case
  proof (cases r)
    case (Inl a)
    then show ?thesis by auto
  next
    case (Inr ms)
    with Cons.prems have "Inl e \<in> set rs" by auto
    from Cons.IH [OF this, of "acc @ ms"] Inr show ?thesis by auto
  qed
qed

subsection \<open>Saving the matches\<close>

lemma new_rows_snoc:
  "new_rows q n (ms @ [m]) =
     new_rows q n ms @ [\<lparr>row_id = n + length ms + 1, row_query = q, row_file_path = path m,
                         row_sheet = sheet m, row_line = line m, row_column = column m,
                         row_page = page m, row_value = val m\<rparr>]"
  by (simp add: new_rows_def enumerate_append_eq)

lemma save_all_dbs:
  assumes "dbs st conn = Some d"
  shows "dbs (foldl (\<lambda>s r. save_result conn q r s) st ms) =
         (dbs st)(conn \<mapsto> \<lparr>seq = seq d + length ms, rows = rows d @ new_rows q (seq d) ms\<rparr>)"
proof (induction ms rule: rev_induct)
  case Nil
  have e: "\<lparr>seq = seq d + length ([] :: match list), rows = rows d @ new_rows q (seq d) []\<rparr> = d"
    by (simp add: new_rows_def)
  have i: "(dbs st)(conn \<mapsto> d) = dbs st"
    using assms by (rule fun_upd_idem)
  show ?case
    by (simp only: foldl_Nil e i)
next
  case (snoc m ms)
  let ?s = "foldl (\<lambda>s r. save_result conn q r s) st ms"
  let ?d = "\<lparr>seq = seq d + length ms, rows = rows d @ new_rows q (seq d) ms\<rparr>"
  have cur: "dbs ?s conn = Some ?d"
    using snoc.IH by simp
  have "dbs (save_result conn q m ?s) = (dbs ?s)(conn \<mapsto> insert_row q m ?d)"
    using cur by (simp add: save_result_def)
  also have "\<dots> = (dbs st)(conn \<mapsto> insert_row q m ?d)"
    by (simp only: snoc.IH fun_upd_upd)
  also have "insert_row q m ?d =
      \<lparr>seq = seq d + length (ms @ [m]), rows = rows d @ new_rows q (seq d) (ms @ [m])\<rparr>"
    by (simp add: insert_row_def new_rows_snoc)
  finally show ?case by simp
qed

lemma save_all_frame:
  "SESSIONS (foldl (\<lambda>s r. save_result conn q r s) st ms) = SESSIONS st \<and>
   submitted (foldl (\<lambda>s r. save_result conn q r s) st ms) = submitted st"
  by (induction ms arbitrary: st) (auto simp: save_result_def split: option.splits)

subsection \<open>A query whose tasks all return\<close>

lemma search_all_ok:
  assumes "SESSIONS st (session_id req) = Some paths"
      and "{..<length paths} \<subseteq> set sched"
      and "map (\<lambda>fp. search_file env fp (pattern req) (flags_of (ignore_case req))) paths =
           map Inr mss"
  shows "search env sched req st =
          (Some (Inr (Matches (concat mss) VERSION PROGRAM)),
           foldl (\<lambda>s r. save_result (db_name (session_id req)) (pattern req) r s)
             ((init_db (session_id req) st)
                \<lparr>submitted := submitted (init_db (session_id req) st) @
                   map (\<lambda>fp. (fp, pattern req, flags_of (ignore_case req))) paths\<rparr>)
             (concat mss))"
proof -
  let ?tasks = "map (\<lambda>fp. search_file env fp (pattern req) (flags_of (ignore_case req))) paths"
  have "{..<length ?tasks} \<subseteq> set sched"
    using assms(2) by simp
  then have "run_workers sched ?tasks = map Some ?tasks"
    by (rule run_workers_complete)
  then have "run_workers sched ?tasks = map Some (map Inr mss)"
    by (simp only: assms(3))
  then show ?thesis
    using assms(1) by (simp add: search_def Let_def collect_all_ok)
qed

lemma demo_tasks:
  "map (\<lambda>fp. search_file demo_env fp (pattern demo_query) (flags_of (ignore_case demo_query)))
     demo_paths =
   map Inr [demo_text_hits, demo_book_hits ''book.xlsx'', [], demo_pdf_hits ''doc.pdf'']"
  by code_simp

subsection \<open>Files that read to their end\<close>

lemma flags_of_IGNORECASE: "(flags_of ic = IGNORECASE) = ic"
  by (simp add: flags_of_def IGNORECASE_def)

lemma read_sheets_all:
  "map (wb_getitem wb) shs = map (\<lambda>rws. Inr (of_list rws)) rowss \<Longrightarrow>
   read_sheets wb shs = zip shs rowss"
proof (induction shs arbitrary: rowss)
  case Nil
  then show ?case by simp
next
  case (Cons sh shs)
  then obtain rws rest where r: "rowss = rws # rest"
    by (cases rowss) auto
  with Cons show ?case by auto
qed


subsection \<open>The table of a session\<close>

lemma init_db_dbs:
  "dbs (init_db sid st) =
     (dbs st)(db_name sid \<mapsto> (case dbs st (db_name sid) of None \<Rightarrow> \<lparr>seq = 0, rows = []\<rparr> | Some d \<Rightarrow> d))"
  by (auto simp: init_db_def fun_upd_idem split: option.splits)

lemma init_db_frame: "SESSIONS (init_db sid st) = SESSIONS st \<and> submitted (init_db sid st) = submitted st"
  by (simp add: init_db_def split: option.splits)

lemma search_all_ok_dbs:
  assumes "SESSIONS st (session_id req) = Some paths"
      and "{..<length paths} \<subseteq> set sched"
      and "map (\<lambda>fp. search_file env fp (pattern req) (flags_of (ignore_case req))) paths =
           map Inr mss"
      and "d0 = (case dbs st (db_name (session_id req)) of None \<Rightarrow> \<lparr>seq = 0, rows = []\<rparr> | Some d \<Rightarrow> d)"
  shows "fst (search env sched req st) = Some (Inr (Matches (concat mss) VERSION PROGRAM))"
    and "dbs (snd (search env sched req st)) =
           (dbs st)(db_name (session_id req) \<mapsto>
              \<lparr>seq = seq d0 + length (concat mss),
                rows = rows d0 @ new_rows (pattern req) (seq d0) (concat mss)\<rparr>)"
    and "SESSIONS (snd (search env sched req st)) = SESSIONS st"
proof -
  let ?st2 = "(init_db (session_id req) st)
                \<lparr>submitted := submitted (init_db (session_id req) st) @
                   map (\<lambda>fp. (fp, pattern req, flags_of (ignore_case req))) paths\<rparr>"
  note s = search_all_ok [OF assms(1-3)]
  show "fst (search env sched req st) = Some (Inr (Matches (concat mss) VERSION PROGRAM))"
    using s by simp
  have cur: "dbs ?st2 (db_name (session_id req)) = Some d0"
    by (simp add: init_db_dbs assms(4))
  have "dbs (snd (search env sched req st)) =
        (dbs ?st2)(db_name (session_id req) \<mapsto>
              \<lparr>seq = seq d0 + length (concat mss),
                rows = rows d0 @ new_rows (pattern req) (seq d0) (concat mss)\<rparr>)"
    unfolding s snd_conv by (rule save_all_dbs [OF cur])
  also have "dbs ?st2 = (dbs st)(db_name (session_id req) \<mapsto> d0)"
    by (simp add: init_db_dbs assms(4))
  finally show "dbs (snd (search env sched req st)) =
           (dbs st)(db_name (session_id req) \<mapsto>
              \<lparr>seq = seq d0 + length (concat mss),
                rows = rows d0 @ new_rows (pattern req) (seq d0) (concat mss)\<rparr>)"
    by (simp only: fun_upd_upd)
  show "SESSIONS (snd (search env sched req st)) = SESSIONS st"
    unfolding s snd_conv by (simp add: save_all_frame init_db_frame)
qed

lemma search_keeps_rows:
  assumes "dbs st k = Some d"
  shows "\<exists>d'. dbs (snd (search env sched req st)) k = Some d' \<and>
              take (length (rows d)) (rows d') = rows d"
proof (cases "SESSIONS st (session_id req)")
  case None
  then show ?thesis using assms by (simp add: search_def)
next
  case (Some paths)
  let ?conn = "db_name (session_id req)"
  let ?st2 = "(init_db (session_id req) st)
                \<lparr>submitted := submitted (init_db (session_id req) st) @
                   map (\<lambda>fp. (fp, pattern req, flags_of (ignore_case req))) paths\<rparr>"
  obtain d0 where d0: "dbs ?st2 ?conn = Some d0"
    by (simp add: init_db_dbs)
  have keep: "dbs ?st2 k = Some d"
    using assms by (auto simp: init_db_dbs)
  show ?thesis
  proof (cases "collect (run_workers sched
                  (map (\<lambda>fp. search_file env fp (pattern req) (flags_of (ignore_case req))) paths)) []")
    case None
    then show ?thesis using Some keep by (simp add: search_def Let_def)
  next
    case outer: (Some r)
    show ?thesis
    proof (cases r)
      case (Inl e)
      then show ?thesis using Some outer keep by (simp add: search_def Let_def)
    next
      case (Inr ms)
      have "dbs (snd (search env sched req st)) =
            (dbs ?st2)(?conn \<mapsto> \<lparr>seq = seq d0 + length ms,
                                     rows = rows d0 @ new_rows (pattern req) (seq d0) ms\<rparr>)"
        using Some outer Inr save_all_dbs [OF d0, of "pattern req" ms]
        by (simp add: search_def Let_def)
      then show ?thesis
        using keep d0 by (cases "k = ?conn") auto
    qed
  qed
qed

lemma length_new_rows [simp]: "length (new_rows q n ms) = length ms"
  by (simp add: new_rows_def)

lemma row_id_new_rows: "map row_id (new_rows q n ms) = [n + 1..<n + 1 + length ms]"
proof (rule nth_equalityI)
  show "length (map row_id (new_rows q n ms)) = length [n + 1..<n + 1 + length ms]"
    by (simp del: upt_Suc)
next
  fix i
  assume "i < length (map row_id (new_rows q n ms))"
  then have i: "i < length ms" by simp
  then have "map row_id (new_rows q n ms) ! i = n + (1 + i)"
    by (simp add: new_rows_def nth_enumerate_eq)
  also have "\<dots> = [n + 1..<n + 1 + length ms] ! i"
    using i by (simp del: upt_Suc)
  finally show "map row_id (new_rows q n ms) ! i = [n + 1..<n + 1 + length ms] ! i" .
qed

lemma demo_hits_length:
  "length (concat [demo_text_hits, demo_book_hits ''book.xlsx'', [], demo_pdf_hits ''doc.pdf'']) = 7"
  by (simp add: demo_text_hits_def demo_book_hits_def demo_pdf_hits_def)

subsection \<open>Dispatch and exceptions\<close>

lemma handlers_bad_pattern:
  assumes "re_compile env p f = Inl e"
  shows "search_text_file env fp p f = Inl e"
    and "search_excel_file env fp p f = Inl e"
    and "search_pdf_file env fp p f a = Inl e"
  using assms
  by (simp_all add: search_text_file_def search_excel_file_def search_pdf_file_def)

lemma search_file_direct:
  assumes "last (split_str CHR ''.'' (lower fp)) \<in>
             set [''xlsx'', ''xlsm'', ''xls'', ''pdf'', ''txt'', ''py'', ''md'', ''csv'']"
  shows "search_file env fp p f =
           (if last (split_str CHR ''.'' (lower fp)) \<in> set [''xlsx'', ''xlsm'', ''xls'']
            then search_excel_file env fp p f
            else if last (split_str CHR ''.'' (lower fp)) = ''pdf''
            then search_pdf_file env fp p f None
            else search_text_file env fp p f)"
  using assms by (auto simp: search_file_def Let_def)

lemma search_file_docx:
  assumes "last (split_str CHR ''.'' (lower fp)) = ''docx''"
  shows "search_file env fp p f =
           (case convert_word_to_pdf env fp None of
              Inl e \<Rightarrow> Inl e
            | Inr pdf_fp \<Rightarrow> search_pdf_file env pdf_fp p f (Some fp))"
  using assms by (simp add: search_file_def Let_def)

lemma search_file_pptx:
  assumes "last (split_str CHR ''.'' (lower fp)) = ''pptx''"
  shows "search_file env fp p f =
           (case convert_ppt_to_pdf env fp None of
              Inl e \<Rightarrow> Inl e
            | Inr pdf_fp \<Rightarrow> search_pdf_file env pdf_fp p f (Some fp))"
  using assms by (simp add: search_file_def Let_def)

text \<open>
  The extensions that reach the converters are the substrings of \<open>docx\<close> and of
  \<open>pptx\<close>, the empty one among them; a path with any other extension outside the
  two tuples and \<open>pdf\<close> gives the empty list, whatever the environment.
\<close>

lemma search_file_unsupported:
  assumes "last (split_str CHR ''.'' (lower fp)) \<notin>
             set [''xlsx'', ''xlsm'', ''xls'', ''pdf'', ''txt'', ''py'', ''md'', ''csv'']"
      and "\<not> str_in (last (split_str CHR ''.'' (lower fp))) ''docx''"
      and "\<not> str_in (last (split_str CHR ''.'' (lower fp))) ''pptx''"
  shows "search_file env fp p f = Inr []"
  using assms by (simp add: search_file_def Let_def)

lemma search_file_word_branch:
  assumes "last (split_str CHR ''.'' (lower fp)) \<notin> set [''xlsx'', ''xlsm'', ''xls'']"
      and "str_in (last (split_str CHR ''.'' (lower fp))) ''docx''"
  shows "search_file env fp p f =
           (case convert_word_to_pdf env fp None of
              Inl e \<Rightarrow> Inl e
            | Inr pdf_fp \<Rightarrow> search_pdf_file env pdf_fp p f (Some fp))"
  using assms by (simp add: search_file_def Let_def)

lemma startswith_Nil: "startswith [] p = (p = [])"
  by (cases p) auto

lemma startswith_Cons:
  "startswith (c # cs) p = (p = [] \<or> (\<exists>ps. p = c # ps \<and> startswith cs ps))"
  by (cases p) auto

lemma str_in_docx:
  "str_in ext ''docx'' =
     (ext \<in> set [[], ''d'', ''o'', ''c'', ''x'', ''do'', ''oc'', ''cx'', ''doc'', ''ocx'', ''docx''])"
  by (auto simp: startswith_Nil startswith_Cons)

lemma str_in_pptx:
  "str_in ext ''pptx'' =
     (ext \<in> set [[], ''p'', ''t'', ''x'', ''pp'', ''pt'', ''tx'', ''ppt'', ''ptx'', ''pptx''])"
  by (auto simp: startswith_Nil startswith_Cons)

lemma search_raises:
  assumes "SESSIONS st (session_id req) = Some paths"
      and "{..<length paths} \<subseteq> set sched"
      and "target \<in> set paths"
      and "search_file env target (pattern req) (flags_of (ignore_case req)) = Inl e"
  shows "\<exists>fp' \<in> set paths. \<exists>e'.
           search_file env fp' (pattern req) (flags_of (ignore_case req)) = Inl e' \<and>
           fst (search env sched req st) = Some (Inl e')"
    and "dbs (snd (search env sched req st)) = dbs (init_db (session_id req) st)"
proof -
  let ?tasks = "map (\<lambda>fp. search_file env fp (pattern req) (flags_of (ignore_case req))) paths"
  have "{..<length ?tasks} \<subseteq> set sched"
    using assms(2) by simp
  then have run: "run_workers sched ?tasks = map Some ?tasks"
    by (rule run_workers_complete)
  have "Inl e \<in> set ?tasks"
    using assms(3,4) by (metis (mono_tags, lifting) image_eqI list.set_map)
  from collect_some_raise [OF this, of "[]"]
  obtain e' where e': "Inl e' \<in> set ?tasks" "collect (map Some ?tasks) [] = Some (Inl e')"
    by blast
  have res: "search env sched req st =
        (Some (Inl e'),
         (init_db (session_id req) st)
           \<lparr>submitted := submitted (init_db (session_id req) st) @
              map (\<lambda>fp. (fp, pattern req, flags_of (ignore_case req))) paths\<rparr>)"
    using assms(1) run e'(2) by (simp add: search_def Let_def)
  from e'(1) obtain fp' where "fp' \<in> set paths"
      "search_file env fp' (pattern req) (flags_of (ignore_case req)) = Inl e'"
    by auto
  with res show "\<exists>fp' \<in> set paths. \<exists>e'.
           search_file env fp' (pattern req) (flags_of (ignore_case req)) = Inl e' \<and>
           fst (search env sched req st) = Some (Inl e')"
    by auto
  show "dbs (snd (search env sched req st)) = dbs (init_db (session_id req) st)"
    using res by simp
qed

lemma bad_tasks:
  "map (\<lambda>fp. search_file demo_env fp (pattern bad_query) (flags_of (ignore_case bad_query)))
     demo_paths =
   [Inl (Exn ''re.error''), Inl (Exn ''re.error''), Inr [], Inl (Exn ''re.error'')]"
  by code_simp

subsection \<open>The claims\<close>

text \<open>
  C1. The claim: \<open>search_file\<close> takes the format from the extension, and only
  \<open>docx\<close> and \<open>pptx\<close> are converted; every extension outside the mapping gives no
  match, no handler call and no error. The code tests \<open>ext in ("docx")\<close>, a substring
  test: the extension \<open>doc\<close> is outside the mapping, and \<open>notes.doc\<close> is sent to the
  converter, whose failure leaves \<open>search_file\<close> as an exception.
\<close>

theorem search_file_doc_is_converted:
  "last (split_str CHR ''.'' (lower ''notes.doc'')) = ''doc'' \<and>
   str_in ''doc'' ''docx'' \<and>
   convert_word_to_pdf demo_env ''notes.doc'' None = Inl (Exn ''CalledProcessError'') \<and>
   search_file demo_env ''notes.doc'' ''alpha'' 0 = Inl (Exn ''CalledProcessError'')"
  by code_simp

text \<open>
  C2, as amended. Once the pattern has compiled, the text, spreadsheet and PDF handlers
  never raise: a failure inside is swallowed and the handler returns, with no error
  signal, the matches of what it had read before the failure, which is the empty list
  when the file cannot be opened. A failure of the conversion of a \<open>docx\<close> or
  \<open>pptx\<close> document leaves \<open>search_file\<close> as an exception.
\<close>

theorem handler_failure_keeps_matches_read:
  assumes "re_compile env pat flags = Inr rx"
  shows "search_text_file env fp pat flags =
           Inr (case open_text env fp of
                  Inl e \<Rightarrow> []
                | Inr fh \<Rightarrow> text_matches fp rx (iter_items fh)) \<and>
         search_excel_file env fp pat flags =
           Inr (case load_workbook env fp of
                  Inl e \<Rightarrow> []
                | Inr wb \<Rightarrow> excel_matches (py_str env) fp rx (read_sheets wb (sheetnames wb))) \<and>
         search_pdf_file env fp pat flags fp_alias =
           Inr (case fitz_open env fp of
                  Inl e \<Rightarrow> []
                | Inr doc \<Rightarrow>
                    pdf_matches rx (case fp_alias of None \<Rightarrow> fp | Some a \<Rightarrow> a) (read_pages rx doc)) \<and>
         (last (split_str CHR ''.'' (lower fp)) = ''docx'' \<and>
          convert_word_to_pdf env fp None = Inl e \<longrightarrow> search_file env fp pat flags = Inl e) \<and>
         (last (split_str CHR ''.'' (lower fp)) = ''pptx'' \<and>
          convert_ppt_to_pdf env fp None = Inl e \<longrightarrow> search_file env fp pat flags = Inl e)"
proof (intro conjI impI)
  show "search_text_file env fp pat flags =
           Inr (case open_text env fp of
                  Inl e \<Rightarrow> []
                | Inr fh \<Rightarrow> text_matches fp rx (iter_items fh))"
    using assms
    by (simp add: search_text_file_def text_loop_items text_matches_def split: sum.splits)
  show "search_excel_file env fp pat flags =
           Inr (case load_workbook env fp of
                  Inl e \<Rightarrow> []
                | Inr wb \<Rightarrow> excel_matches (py_str env) fp rx (read_sheets wb (sheetnames wb)))"
    using assms
    by (simp add: search_excel_file_def sheets_loop_eq split: sum.splits)
  show "search_pdf_file env fp pat flags fp_alias =
           Inr (case fitz_open env fp of
                  Inl e \<Rightarrow> []
                | Inr doc \<Rightarrow>
                    pdf_matches rx (case fp_alias of None \<Rightarrow> fp | Some a \<Rightarrow> a) (read_pages rx doc))"
    using assms
    by (simp add: search_pdf_file_def pages_loop_eq pdf_matches_def Let_def split: sum.splits)
  assume "last (split_str CHR ''.'' (lower fp)) = ''docx'' \<and> convert_word_to_pdf env fp None = Inl e"
  then show "search_file env fp pat flags = Inl e"
    by (simp add: search_file_docx)
next
  assume "last (split_str CHR ''.'' (lower fp)) = ''pptx'' \<and> convert_ppt_to_pdf env fp None = Inl e"
  then show "search_file env fp pat flags = Inl e"
    by (simp add: search_file_pptx)
qed

theorem handler_failure_keeps_matches_read_witness:
  "search_text_file demo_env ''torn.txt'' ''alpha'' 0 =
     Inr [\<lparr>path = ''torn.txt'', sheet = None, line = ''1'', column = None, page = None,
            val = ''alpha'', x_pct = None, y_pct = None\<rparr>] \<and>
   search_excel_file demo_env ''torn.xlsx'' ''alpha'' 0 =
     Inr [\<lparr>path = ''torn.xlsx'', sheet = Some ''Sheet1'', line = ''3'', column = Some ''2'',
            page = None, val = ''alpha'', x_pct = None, y_pct = None\<rparr>] \<and>
   search_pdf_file demo_env ''lost.pdf'' ''alpha'' 0 None = Inr [] \<and>
   search_file demo_env ''broken.docx'' ''alpha'' 0 = Inl (Exn ''CalledProcessError'') \<and>
   search_file demo_env ''broken.pptx'' ''alpha'' 0 = Inl (RuntimeError (Exn ''CalledProcessError''))"
proof -
  have c: "re_compile demo_env ''alpha'' 0 = Inr (literal_search ''alpha'' 0)"
    by (simp add: demo_env_def demo_compile_def)
  have t: "(case open_text demo_env ''torn.txt'' of
              Inl e \<Rightarrow> []
            | Inr fh \<Rightarrow> text_matches ''torn.txt'' (literal_search ''alpha'' 0) (iter_items fh)) =
           [\<lparr>path = ''torn.txt'', sheet = None, line = ''1'', column = None, page = None,
              val = ''alpha'', x_pct = None, y_pct = None\<rparr>]"
    by code_simp
  have x: "(case load_workbook demo_env ''torn.xlsx'' of
              Inl e \<Rightarrow> []
            | Inr wb \<Rightarrow> excel_matches (py_str demo_env) ''torn.xlsx'' (literal_search ''alpha'' 0)
                         (read_sheets wb (sheetnames wb))) =
           [\<lparr>path = ''torn.xlsx'', sheet = Some ''Sheet1'', line = ''3'', column = Some ''2'',
              page = None, val = ''alpha'', x_pct = None, y_pct = None\<rparr>]"
    by code_simp
  have p: "(case fitz_open demo_env ''lost.pdf'' of
              Inl e \<Rightarrow> []
            | Inr doc \<Rightarrow> pdf_matches (literal_search ''alpha'' 0)
                          (case None of None \<Rightarrow> ''lost.pdf'' | Some a \<Rightarrow> a)
                          (read_pages (literal_search ''alpha'' 0) doc)) = []"
    by code_simp
  have d: "last (split_str CHR ''.'' (lower ''broken.docx'')) = ''docx'' \<and>
           convert_word_to_pdf demo_env ''broken.docx'' None = Inl (Exn ''CalledProcessError'')"
    by code_simp
  have q: "last (split_str CHR ''.'' (lower ''broken.pptx'')) = ''pptx'' \<and>
           convert_ppt_to_pdf demo_env ''broken.pptx'' None =
             Inl (RuntimeError (Exn ''CalledProcessError''))"
    by code_simp
  from handler_failure_keeps_matches_read [OF c, of "''torn.txt''"]
  have 1: "search_text_file demo_env ''torn.txt'' ''alpha'' 0 =
     Inr [\<lparr>path = ''torn.txt'', sheet = None, line = ''1'', column = None, page = None,
            val = ''alpha'', x_pct = None, y_pct = None\<rparr>]"
    unfolding t by (rule conjunct1)
  from handler_failure_keeps_matches_read [OF c, of "''torn.xlsx''"]
  have 2: "search_excel_file demo_env ''torn.xlsx'' ''alpha'' 0 =
     Inr [\<lparr>path = ''torn.xlsx'', sheet = Some ''Sheet1'', line = ''3'', column = Some ''2'',
            page = None, val = ''alpha'', x_pct = None, y_pct = None\<rparr>]"
    unfolding x by blast
  from handler_failure_keeps_matches_read [OF c, of "''lost.pdf''" None]
  have 3: "search_pdf_file demo_env ''lost.pdf'' ''alpha'' 0 None = Inr []"
    unfolding p by blast
  from handler_failure_keeps_matches_read [OF c, of "''broken.docx''" None "Exn ''CalledProcessError''"] d
  have 4: "search_file demo_env ''broken.docx'' ''alpha'' 0 = Inl (Exn ''CalledProcessError'')"
    by blast
  from handler_failure_keeps_matches_read [OF c, of "''broken.pptx''" None
      "RuntimeError (Exn ''CalledProcessError'')"] q
  have 5: "search_file demo_env ''broken.pptx'' ''alpha'' 0 =
      Inl (RuntimeError (Exn ''CalledProcessError''))"
    by blast
  from 1 2 3 4 5 show ?thesis by blast
qed

text \<open>
  C2 as stated says that the handler returns an empty list after any failure inside.
  The second sheet of \<open>torn.xlsx\<close> cannot be parsed; the handler returns the match
  it had found in the first sheet.
\<close>

theorem handler_failure_keeps_matches_counterexample:
  "load_workbook demo_env ''torn.xlsx'' = Inr torn_book \<and>
   wb_getitem torn_book ''Sheet2'' = Inr (Raise (Exn ''ParseError'')) \<and>
   search_excel_file demo_env ''torn.xlsx'' ''alpha'' 0 =
     Inr [\<lparr>path = ''torn.xlsx'', sheet = Some ''Sheet1'', line = ''3'', column = Some ''2'',
            page = None, val = ''alpha'', x_pct = None, y_pct = None\<rparr>] \<and>
   search_excel_file demo_env ''torn.xlsx'' ''alpha'' 0 \<noteq> Inr []"
proof -
  have a: "load_workbook demo_env ''torn.xlsx'' = Inr torn_book"
    by (simp add: demo_env_def demo_load_workbook_def)
  have b: "wb_getitem torn_book ''Sheet2'' = Inr (Raise (Exn ''ParseError''))"
    by (simp add: torn_book_def)
  have c: "search_excel_file demo_env ''torn.xlsx'' ''alpha'' 0 =
     Inr [\<lparr>path = ''torn.xlsx'', sheet = Some ''Sheet1'', line = ''3'', column = Some ''2'',
            page = None, val = ''alpha'', x_pct = None, y_pct = None\<rparr>]"
    by code_simp
  from a b c show ?thesis by simp
qed

text \<open>
  C3. For a registered session whose tasks all finish, in whatever order, and all
  return, the matches of the query are the tasks' match lists one after the other in
  the order of the session's paths; each list is kept as its handler built it.
\<close>

theorem search_concat_in_submission_order:
  assumes "SESSIONS st (session_id req) = Some paths"
      and "{..<length paths} \<subseteq> set sched"
      and "map (\<lambda>fp. search_file env fp (pattern req) (flags_of (ignore_case req))) paths =
           map Inr mss"
  shows "fst (search env sched req st) = Some (Inr (Matches (concat mss) VERSION PROGRAM))"
  using search_all_ok [OF assms] by simp

theorem search_concat_in_submission_order_witness:
  "fst (search demo_env [3, 1, 0, 2] demo_query demo_state) =
     Some (Inr (Matches (demo_text_hits @ demo_book_hits ''book.xlsx'' @ demo_pdf_hits ''doc.pdf'')
                  VERSION PROGRAM))"
proof -
  have h1: "SESSIONS demo_state (session_id demo_query) = Some demo_paths"
    by (simp add: demo_state_def demo_query_def)
  have h2: "{..<length demo_paths} \<subseteq> set [3, 1, 0, 2]"
    by (auto simp: demo_paths_def)
  from search_concat_in_submission_order [OF h1 h2 demo_tasks]
  show ?thesis by simp
qed

text \<open>
  C4. For a registered session with the paths \<open>paths\<close> and a display limit \<open>L\<close> that
  is not negative, \<open>get_targets\<close> shows the first \<open>min N L\<close> paths unchanged; all of
  them and nothing else when \<open>N \<le> L\<close>; the first \<open>L\<close> and the one entry
  \<open>...and (N - L) more\<close> when \<open>N > L\<close>.
\<close>

theorem get_targets_display:
  assumes "SESSIONS st sid = Some paths" and "0 \<le> L"
  shows "\<exists>shown. get_targets L st sid = Paths shown \<and>
           take (min (length paths) (nat L)) shown = take (min (length paths) (nat L)) paths \<and>
           (int (length paths) \<le> L \<longrightarrow> shown = paths) \<and>
           (L < int (length paths) \<longrightarrow>
              shown = take (nat L) paths @
                        [''...and '' @ str_int (int (length paths) - L) @ '' more''])"
  using assms by (auto simp: get_targets_def slice_to_def Let_def min_def)

theorem get_targets_display_witness:
  "get_targets 2 demo_state ''s1'' = Paths [''notes.txt'', ''book.xlsx'', ''...and 2 more''] \<and>
   get_targets 4 demo_state ''s1'' = Paths [''notes.txt'', ''book.xlsx'', ''README'', ''doc.pdf'']"
proof -
  have h: "SESSIONS demo_state ''s1'' = Some demo_paths"
    by (simp add: demo_state_def)
  have n: "str_int 2 = ''2''"
    by code_simp
  from get_targets_display [OF h, of 2] get_targets_display [OF h, of 4] n
  show ?thesis by (auto simp: demo_paths_def)
qed

text \<open>
  C5. For a text file that opens and reads to its end, the text handler returns one
  match for each line the pattern matches, in file order: \<open>line\<close> is the number of
  the line counted from 1, \<open>sheet\<close>, \<open>column\<close> and \<open>page\<close> are \<open>None\<close>, and
  \<open>val\<close> is the line without its trailing newline. The flag of the query gives
  \<open>IGNORECASE\<close> exactly when \<open>ignore_case\<close> is set.
\<close>

theorem search_text_file_lines:
  assumes "re_compile env pat (flags_of ic) = Inr rx"
      and "open_text env fp = Inr (of_list ls)"
  shows "search_text_file env fp pat (flags_of ic) =
           Inr (map (\<lambda>(i, l). \<lparr>path = fp, sheet = None, line = str_nat i, column = None,
                                  page = None, val = rstrip_nl l, x_pct = None, y_pct = None\<rparr>)
                  (filter (\<lambda>(i, l). rx l) (enumerate 1 ls))) \<and>
         (flags_of ic = IGNORECASE) = ic"
  using assms by (simp add: search_text_file_def text_loop_items flags_of_IGNORECASE)

theorem search_text_file_lines_witness:
  "search_text_file demo_env ''notes.txt'' ''alpha'' (flags_of True) =
     Inr [\<lparr>path = ''notes.txt'', sheet = None, line = ''2'', column = None, page = None,
            val = ''alpha one'', x_pct = None, y_pct = None\<rparr>,
          \<lparr>path = ''notes.txt'', sheet = None, line = ''5'', column = None, page = None,
            val = ''Alpha two'', x_pct = None, y_pct = None\<rparr>] \<and>
   search_text_file demo_env ''notes.txt'' ''alpha'' (flags_of False) = Inr demo_text_hits"
proof -
  have c1: "re_compile demo_env ''alpha'' (flags_of True) = Inr (literal_search ''alpha'' IGNORECASE)"
    by (simp add: demo_env_def demo_compile_def flags_of_def)
  have c2: "re_compile demo_env ''alpha'' (flags_of False) = Inr (literal_search ''alpha'' 0)"
    by (simp add: demo_env_def demo_compile_def flags_of_def)
  have o: "open_text demo_env ''notes.txt'' = Inr (of_list demo_lines)"
    by (simp add: demo_env_def demo_open_text_def)
  have e1: "map (\<lambda>(i, l). \<lparr>path = ''notes.txt'', sheet = None, line = str_nat i, column = None,
                                  page = None, val = rstrip_nl l, x_pct = None, y_pct = None\<rparr>)
                  (filter (\<lambda>(i, l). literal_search ''alpha'' IGNORECASE l) (enumerate 1 demo_lines)) =
     [\<lparr>path = ''notes.txt'', sheet = None, line = ''2'', column = None, page = None,
            val = ''alpha one'', x_pct = None, y_pct = None\<rparr>,
          \<lparr>path = ''notes.txt'', sheet = None, line = ''5'', column = None, page = None,
            val = ''Alpha two'', x_pct = None, y_pct = None\<rparr>]"
    by code_simp
  have e2: "map (\<lambda>(i, l). \<lparr>path = ''notes.txt'', sheet = None, line = str_nat i, column = None,
                                  page = None, val = rstrip_nl l, x_pct = None, y_pct = None\<rparr>)
                  (filter (\<lambda>(i, l). literal_search ''alpha'' 0 l) (enumerate 1 demo_lines)) =
     demo_text_hits"
    by code_simp
  from search_text_file_lines [OF c1 o] have a:
    "search_text_file demo_env ''notes.txt'' ''alpha'' (flags_of True) =
       Inr [\<lparr>path = ''notes.txt'', sheet = None, line = ''2'', column = None, page = None,
              val = ''alpha one'', x_pct = None, y_pct = None\<rparr>,
            \<lparr>path = ''notes.txt'', sheet = None, line = ''5'', column = None, page = None,
              val = ''Alpha two'', x_pct = None, y_pct = None\<rparr>]"
    unfolding e1 by (rule conjunct1)
  from search_text_file_lines [OF c2 o] have b:
    "search_text_file demo_env ''notes.txt'' ''alpha'' (flags_of False) = Inr demo_text_hits"
    unfolding e2 by (rule conjunct1)
  from a b show ?thesis by (rule conjI)
qed

text \<open>
  C6. For a workbook that loads and whose sheets all read to their end, the spreadsheet
  handler goes through the sheets in declared order, the rows from the top numbered
  from 1, the cells from the left numbered from 1. A cell is tested as its string, the
  empty string for an empty cell; a match carries the sheet name, the row number as
  \<open>line\<close>, the column number as \<open>column\<close>, and \<open>page = None\<close>.
\<close>

theorem search_excel_file_cells:
  assumes "re_compile env pat flags = Inr rx"
      and "load_workbook env fp = Inr wb"
      and "map (wb_getitem wb) (sheetnames wb) = map (\<lambda>rws. Inr (of_list rws)) rowss"
  shows "search_excel_file env fp pat flags =
           Inr (concat (map (\<lambda>(sh, rws).
                  concat (map (\<lambda>(i, row).
                    map (\<lambda>(j, cell).
                           \<lparr>path = fp, sheet = Some sh, line = str_nat i, column = Some (str_nat j),
                             page = None,
                             val = (case cell of None \<Rightarrow> [] | Some c \<Rightarrow> py_str env c),
                             x_pct = None, y_pct = None\<rparr>)
                      (filter (\<lambda>(j, cell). rx (case cell of None \<Rightarrow> [] | Some c \<Rightarrow> py_str env c))
                         (enumerate 1 row)))
                    (enumerate 1 rws)))
                  (zip (sheetnames wb) rowss)))"
  using assms
  by (simp add: search_excel_file_def sheets_loop_eq read_sheets_all excel_matches_def
        row_matches_def cell_text_def)

theorem search_excel_file_cells_witness:
  "search_excel_file demo_env ''book.xlsx'' ''alpha'' 0 = Inr (demo_book_hits ''book.xlsx'')"
proof -
  have c: "re_compile demo_env ''alpha'' 0 = Inr (literal_search ''alpha'' 0)"
    by (simp add: demo_env_def demo_compile_def)
  have l: "load_workbook demo_env ''book.xlsx'' = Inr demo_book"
    by (simp add: demo_env_def demo_load_workbook_def)
  have g: "map (wb_getitem demo_book) (sheetnames demo_book) =
           map (\<lambda>rws. Inr (of_list rws)) [demo_sheet1, demo_sheet2]"
    by (simp add: demo_book_def)
  have e: "concat (map (\<lambda>(sh, rws).
                  concat (map (\<lambda>(i, row).
                    map (\<lambda>(j, cell).
                           \<lparr>path = ''book.xlsx'', sheet = Some sh, line = str_nat i,
                             column = Some (str_nat j), page = None,
                             val = (case cell of None \<Rightarrow> [] | Some c \<Rightarrow> py_str demo_env c),
                             x_pct = None, y_pct = None\<rparr>)
                      (filter (\<lambda>(j, cell). literal_search ''alpha'' 0
                                  (case cell of None \<Rightarrow> [] | Some c \<Rightarrow> py_str demo_env c))
                         (enumerate 1 row)))
                    (enumerate 1 rws)))
                  (zip (sheetnames demo_book) [demo_sheet1, demo_sheet2])) =
           demo_book_hits ''book.xlsx''"
    by code_simp
  from search_excel_file_cells [OF c l g] show ?thesis
    unfolding e .
qed



text \<open>
  C8. A query that names a session identifier that is not registered returns the error
  \<open>unknown session_id\<close> with status 400 and leaves the state as it was: no task is
  handed to the pool, no table is created and no row is written.
\<close>

theorem search_unknown_session:
  assumes "SESSIONS st (session_id req) = None"
  shows "search env sched req st = (Some (Inr (JSONResponse ''unknown session_id'' 400)), st)"
  using assms by (simp add: search_def)

theorem search_unknown_session_witness:
  "SESSIONS demo_state ''nobody'' = None \<and>
   search demo_env [0, 1, 2, 3] (demo_query\<lparr>session_id := ''nobody''\<rparr>) demo_state =
     (Some (Inr (JSONResponse ''unknown session_id'' 400)), demo_state) \<and>
   submitted demo_state = [] \<and> dbs demo_state ''nobody.sqlite'' = None"
proof -
  have h: "SESSIONS demo_state (session_id (demo_query\<lparr>session_id := ''nobody''\<rparr>)) = None"
    by (simp add: demo_state_def demo_query_def)
  from search_unknown_session [OF h, of demo_env "[0, 1, 2, 3]"] h
  show ?thesis by (simp add: demo_state_def)
qed

text \<open>
  C9. The table of a session only grows. A query whose tasks all return appends one row
  for each match, with the identifiers that follow the last one handed out; the same
  query run again appends the same rows again under new identifiers, so two runs add
  twice the number of matches. No query, whatever its outcome, and no submission of
  targets changes or removes a row that is there.
\<close>

theorem result_store_append_only:
  assumes "SESSIONS st (session_id req) = Some paths"
      and "{..<length paths} \<subseteq> set sched"
      and "{..<length paths} \<subseteq> set sched'"
      and "map (\<lambda>fp. search_file env fp (pattern req) (flags_of (ignore_case req))) paths =
           map Inr mss"
  shows "\<exists>d0 d1 d2 st1 st2.
           d0 = (case dbs st (db_name (session_id req)) of
                   None \<Rightarrow> \<lparr>seq = 0, rows = []\<rparr>
                 | Some d \<Rightarrow> d) \<and>
           search env sched req st = (Some (Inr (Matches (concat mss) VERSION PROGRAM)), st1) \<and>
           search env sched' req st1 = (Some (Inr (Matches (concat mss) VERSION PROGRAM)), st2) \<and>
           dbs st1 = (dbs st)(db_name (session_id req) \<mapsto> d1) \<and>
           dbs st2 = (dbs st)(db_name (session_id req) \<mapsto> d2) \<and>
           rows d1 = rows d0 @ new_rows (pattern req) (seq d0) (concat mss) \<and>
           rows d2 = rows d1 @ new_rows (pattern req) (seq d1) (concat mss) \<and>
           seq d1 = seq d0 + length (concat mss) \<and>
           seq d2 = seq d1 + length (concat mss) \<and>
           map row_id (new_rows (pattern req) (seq d0) (concat mss)) =
             [seq d0 + 1..<seq d0 + 1 + length (concat mss)] \<and>
           length (rows d2) = length (rows d0) + 2 * length (concat mss) \<and>
           (\<forall>env' sched'' req' s k d.
              dbs s k = Some d \<longrightarrow>
              (\<exists>d'. dbs (snd (search (env' :: 'c env) sched'' req' s)) k = Some d' \<and>
                    take (length (rows d)) (rows d') = rows d)) \<and>
           (\<forall>sid ps s. dbs (submit_targets sid ps s) = dbs s)"
proof -
  define d0 where "d0 = (case dbs st (db_name (session_id req)) of
                   None \<Rightarrow> \<lparr>seq = 0, rows = []\<rparr>
                 | Some d \<Rightarrow> d)"
  define d1 where "d1 = \<lparr>seq = seq d0 + length (concat mss),
                rows = rows d0 @ new_rows (pattern req) (seq d0) (concat mss)\<rparr>"
  define d2 where "d2 = \<lparr>seq = seq d1 + length (concat mss),
                rows = rows d1 @ new_rows (pattern req) (seq d1) (concat mss)\<rparr>"
  define st1 where "st1 = snd (search env sched req st)"
  define st2 where "st2 = snd (search env sched' req st1)"
  note a = search_all_ok_dbs [OF assms(1,2,4) d0_def]
  have r1: "search env sched req st = (Some (Inr (Matches (concat mss) VERSION PROGRAM)), st1)"
    using a(1) by (simp add: st1_def prod_eq_iff)
  have db1: "dbs st1 = (dbs st)(db_name (session_id req) \<mapsto> d1)"
    using a(2) by (simp add: st1_def d1_def)
  have s1: "SESSIONS st1 (session_id req) = Some paths"
    using a(3) assms(1) by (simp add: st1_def)
  have e1: "d1 = (case dbs st1 (db_name (session_id req)) of
                   None \<Rightarrow> \<lparr>seq = 0, rows = []\<rparr>
                 | Some d \<Rightarrow> d)"
    by (simp add: db1)
  note b = search_all_ok_dbs [OF s1 assms(3,4) e1]
  have r2: "search env sched' req st1 = (Some (Inr (Matches (concat mss) VERSION PROGRAM)), st2)"
    using b(1) by (simp add: st2_def prod_eq_iff)
  have db2: "dbs st2 = (dbs st)(db_name (session_id req) \<mapsto> d2)"
    using b(2) by (simp add: st2_def d2_def db1)
  have keep: "\<forall>env' sched'' req' s k d.
              dbs s k = Some d \<longrightarrow>
              (\<exists>d'. dbs (snd (search (env' :: 'c env) sched'' req' s)) k = Some d' \<and>
                    take (length (rows d)) (rows d') = rows d)"
    by (intro allI impI) (rule search_keeps_rows)
  have sub: "\<forall>sid ps s. dbs (submit_targets sid ps s) = dbs s"
    by (simp add: submit_targets_def)
  show ?thesis
    apply (rule exI [of _ d0], rule exI [of _ d1], rule exI [of _ d2],
           rule exI [of _ st1], rule exI [of _ st2])
    using r1 r2 db1 db2 keep sub
    by (simp add: d0_def [symmetric] d1_def d2_def row_id_new_rows)
qed

theorem result_store_append_only_witness:
  "dbs demo_state ''s1.sqlite'' = None \<and>
   map row_id (rows (the (dbs (snd (search demo_env [3, 1, 0, 2] demo_query demo_state)) ''s1.sqlite'')))
     = [1..<8] \<and>
   length (rows (the (dbs (snd (search demo_env [0, 1, 2, 3] demo_query
                                  (snd (search demo_env [3, 1, 0, 2] demo_query demo_state))))
                       ''s1.sqlite''))) = 14"
proof -
  have h1: "SESSIONS demo_state (session_id demo_query) = Some demo_paths"
    by (simp add: demo_state_def demo_query_def)
  have h2: "{..<length demo_paths} \<subseteq> set [3, 1, 0, 2]"
    by (auto simp: demo_paths_def)
  have h3: "{..<length demo_paths} \<subseteq> set [0, 1, 2, 3]"
    by (auto simp: demo_paths_def)
  have n: "dbs demo_state ''s1.sqlite'' = None"
    by (simp add: demo_state_def)
  have k: "db_name (session_id demo_query) = ''s1.sqlite''"
    by (simp add: db_name_def demo_query_def)
  from result_store_append_only [OF h1 h2 h3 demo_tasks]
  obtain d0 d1 d2 st1 st2 where
    d0: "d0 = (case dbs demo_state (db_name (session_id demo_query)) of
                 None \<Rightarrow> \<lparr>seq = 0, rows = []\<rparr> | Some d \<Rightarrow> d)" and
    r1: "search demo_env [3, 1, 0, 2] demo_query demo_state =
           (Some (Inr (Matches (concat [demo_text_hits, demo_book_hits ''book.xlsx'', [],
                                        demo_pdf_hits ''doc.pdf'']) VERSION PROGRAM)), st1)" and
    r2: "search demo_env [0, 1, 2, 3] demo_query st1 =
           (Some (Inr (Matches (concat [demo_text_hits, demo_book_hits ''book.xlsx'', [],
                                        demo_pdf_hits ''doc.pdf'']) VERSION PROGRAM)), st2)" and
    db1: "dbs st1 = (dbs demo_state)(db_name (session_id demo_query) \<mapsto> d1)" and
    db2: "dbs st2 = (dbs demo_state)(db_name (session_id demo_query) \<mapsto> d2)" and
    rw1: "rows d1 = rows d0 @ new_rows (pattern demo_query) (seq d0)
                      (concat [demo_text_hits, demo_book_hits ''book.xlsx'', [],
                               demo_pdf_hits ''doc.pdf''])" and
    ids: "map row_id (new_rows (pattern demo_query) (seq d0)
                      (concat [demo_text_hits, demo_book_hits ''book.xlsx'', [],
                               demo_pdf_hits ''doc.pdf''])) =
          [seq d0 + 1..<seq d0 + 1 + length (concat [demo_text_hits, demo_book_hits ''book.xlsx'', [],
                               demo_pdf_hits ''doc.pdf''])]" and
    len: "length (rows d2) = length (rows d0) + 2 * length (concat [demo_text_hits,
                               demo_book_hits ''book.xlsx'', [], demo_pdf_hits ''doc.pdf''])"
    by blast
  have z: "seq d0 = 0" "rows d0 = []"
    using d0 n k by simp_all
  have s1: "snd (search demo_env [3, 1, 0, 2] demo_query demo_state) = st1"
    using r1 by simp
  have s2: "snd (search demo_env [0, 1, 2, 3] demo_query st1) = st2"
    using r2 by simp
  have a: "map row_id (rows (the (dbs st1 ''s1.sqlite''))) = [1..<8]"
    using db1 rw1 ids z k demo_hits_length by (simp del: upt_Suc concat.simps)
  have b: "length (rows (the (dbs st2 ''s1.sqlite''))) = 14"
    using db2 len z k demo_hits_length by (simp del: concat.simps)
  show ?thesis
    unfolding s1 s2 using n a b by blast
qed

text \<open>
  C10. When the regex engine rejects the pattern, each of the three handlers raises
  the engine's exception instead of returning a list. A query over a registered
  session with a target that goes straight to a handler then ends in an exception
  raised by one of its tasks, and writes no row.
\<close>

theorem invalid_pattern_fails_query:
  assumes "re_compile env (pattern req) (flags_of (ignore_case req)) = Inl e"
  shows "search_text_file env fp (pattern req) (flags_of (ignore_case req)) = Inl e \<and>
         search_excel_file env fp (pattern req) (flags_of (ignore_case req)) = Inl e \<and>
         search_pdf_file env fp (pattern req) (flags_of (ignore_case req)) fp_alias = Inl e \<and>
         (SESSIONS st (session_id req) = Some paths \<and> {..<length paths} \<subseteq> set sched \<and>
          target \<in> set paths \<and>
          last (split_str CHR ''.'' (lower target)) \<in>
            set [''xlsx'', ''xlsm'', ''xls'', ''pdf'', ''txt'', ''py'', ''md'', ''csv''] \<longrightarrow>
          search_file env target (pattern req) (flags_of (ignore_case req)) = Inl e \<and>
          (\<exists>fp' \<in> set paths. \<exists>e'.
             search_file env fp' (pattern req) (flags_of (ignore_case req)) = Inl e' \<and>
             fst (search env sched req st) = Some (Inl e')) \<and>
          dbs (snd (search env sched req st)) = dbs (init_db (session_id req) st))"
proof (intro conjI impI)
  note h = handlers_bad_pattern [OF assms]
  show "search_text_file env fp (pattern req) (flags_of (ignore_case req)) = Inl e"
    by (rule h)
  show "search_excel_file env fp (pattern req) (flags_of (ignore_case req)) = Inl e"
    by (rule h)
  show "search_pdf_file env fp (pattern req) (flags_of (ignore_case req)) fp_alias = Inl e"
    by (rule h)
  assume a: "SESSIONS st (session_id req) = Some paths \<and> {..<length paths} \<subseteq> set sched \<and>
          target \<in> set paths \<and>
          last (split_str CHR ''.'' (lower target)) \<in>
            set [''xlsx'', ''xlsm'', ''xls'', ''pdf'', ''txt'', ''py'', ''md'', ''csv'']"
  then have ext: "last (split_str CHR ''.'' (lower target)) \<in>
            set [''xlsx'', ''xlsm'', ''xls'', ''pdf'', ''txt'', ''py'', ''md'', ''csv'']"
    by blast
  show t: "search_file env target (pattern req) (flags_of (ignore_case req)) = Inl e"
    unfolding search_file_direct [OF ext] by (simp add: h)
  from a have b: "SESSIONS st (session_id req) = Some paths" "{..<length paths} \<subseteq> set sched"
      "target \<in> set paths"
    by blast+
  show "\<exists>fp' \<in> set paths. \<exists>e'.
             search_file env fp' (pattern req) (flags_of (ignore_case req)) = Inl e' \<and>
             fst (search env sched req st) = Some (Inl e')"
    by (rule search_raises(1) [OF b t])
  show "dbs (snd (search env sched req st)) = dbs (init_db (session_id req) st)"
    by (rule search_raises(2) [OF b t])
qed

theorem invalid_pattern_fails_query_witness:
  "search_text_file demo_env ''notes.txt'' ''('' 0 = Inl (Exn ''re.error'') \<and>
   search_excel_file demo_env ''notes.txt'' ''('' 0 = Inl (Exn ''re.error'') \<and>
   search_pdf_file demo_env ''notes.txt'' ''('' 0 None = Inl (Exn ''re.error'') \<and>
   fst (search demo_env [3, 1, 0, 2] bad_query demo_state) = Some (Inl (Exn ''re.error'')) \<and>
   dbs (snd (search demo_env [3, 1, 0, 2] bad_query demo_state)) ''s1.sqlite'' =
     Some \<lparr>seq = 0, rows = []\<rparr>"
proof -
  have c: "re_compile demo_env (pattern bad_query) (flags_of (ignore_case bad_query)) =
           Inl (Exn ''re.error'')"
    by (simp add: demo_env_def demo_compile_def bad_query_def)
  have p: "pattern bad_query = ''(''" "flags_of (ignore_case bad_query) = 0"
    by (simp_all add: bad_query_def flags_of_def)
  have h: "SESSIONS demo_state (session_id bad_query) = Some demo_paths \<and>
           {..<length demo_paths} \<subseteq> set [3, 1, 0, 2] \<and>
           ''notes.txt'' \<in> set demo_paths \<and>
           last (split_str CHR ''.'' (lower ''notes.txt'')) \<in>
             set [''xlsx'', ''xlsm'', ''xls'', ''pdf'', ''txt'', ''py'', ''md'', ''csv'']"
  proof (intro conjI)
    show "SESSIONS demo_state (session_id bad_query) = Some demo_paths"
      by (simp add: demo_state_def bad_query_def)
    show "{..<length demo_paths} \<subseteq> set [3, 1, 0, 2]"
      by (auto simp: demo_paths_def)
    show "''notes.txt'' \<in> set demo_paths"
      by (simp add: demo_paths_def)
    show "last (split_str CHR ''.'' (lower ''notes.txt'')) \<in>
             set [''xlsx'', ''xlsm'', ''xls'', ''pdf'', ''txt'', ''py'', ''md'', ''csv'']"
      by code_simp
  qed
  note t = invalid_pattern_fails_query [OF c, where fp = "''notes.txt''" and fp_alias = None
      and st = demo_state and paths = demo_paths and sched = "[3, 1, 0, 2]"
      and target = "''notes.txt''"]
  from t h obtain fp' e' where
    f: "fp' \<in> set demo_paths"
       "search_file demo_env fp' (pattern bad_query) (flags_of (ignore_case bad_query)) = Inl e'"
       "fst (search demo_env [3, 1, 0, 2] bad_query demo_state) = Some (Inl e')"
    by blast
  from f(1,2) bad_tasks have "e' = Exn ''re.error''"
    by (auto simp: demo_paths_def)
  with f(3) have q: "fst (search demo_env [3, 1, 0, 2] bad_query demo_state) =
      Some (Inl (Exn ''re.error''))"
    by simp
  from t h have d: "dbs (snd (search demo_env [3, 1, 0, 2] bad_query demo_state)) =
      dbs (init_db (session_id bad_query) demo_state)"
    by blast
  have i: "dbs (init_db (session_id bad_query) demo_state) ''s1.sqlite'' = Some \<lparr>seq = 0, rows = []\<rparr>"
    by (simp add: init_db_def bad_query_def demo_state_def db_name_def)
  from t q d i show ?thesis
    by (simp add: p)
qed

end
